theory Spec2Isabelle
  imports Main "HOL-Library.Word"
begin

section \<open>Alias resolution of build requests (package blockchain, \<open>filterAliases\<close>)\<close>

text \<open>
  Errors of package \<open>errors\<close>: a root error made by \<open>errors.New\<close>, an error wrapped by
  \<open>errors.Wrap\<close> with a message, and an error annotated by \<open>errors.WithDetailf\<close> with a
  formatted detail string.
\<close>

datatype error =
    New string
  | Wrap error string
  | WithDetailf error string

text \<open>
  The dynamic values held by an action, a Go \<open>map[string]interface{}\<close> decoded from JSON:
  strings, numbers, booleans, null, and the asset identifier that \<open>filterAliases\<close> itself
  stores (a \<open>bc.AssetID\<close>, which is not a Go \<open>string\<close>).
\<close>

datatype ivalue =
    VString string
  | VNumber int
  | VBool bool
  | VNull
  | VAssetID string

type_synonym action = "string \<rightharpoonup> ivalue"

text \<open>The two-result type assertion \<open>v, _ := m[k].(string)\<close>: the string held under the key,
  and the empty string when the key is absent or holds a value of another type.\<close>

fun as_string :: "ivalue option \<Rightarrow> string" where
  "as_string (Some (VString s)) = s"
| "as_string _ = ''''"

record Asset =
  AssetID :: string
  asset_Alias :: string

record Account =
  ID :: string
  account_Alias :: string

text \<open>The part of a \<open>BlockchainReactor\<close> that \<open>filterAliases\<close> uses: the alias lookups of the
  asset registry and of the account manager, which are not part of the function itself.\<close>

record BlockchainReactor =
  assets_FindByAlias :: "string \<Rightarrow> error + Asset"
  accounts_FindByAlias :: "string \<Rightarrow> error + Account"

text \<open>A build request. The base transaction (a pointer, possibly nil) and the time to live
  are carried along; \<open>filterAliases\<close> reads and writes the actions only.\<close>

record BuildRequest =
  Tx :: "string option"
  Actions :: "action list"
  TTL :: int

text \<open>The verb \<open>%d\<close> of the format string: a natural number in decimal.\<close>

fun string_of_nat :: "nat \<Rightarrow> string" where
  "string_of_nat n =
     (if n < 10 then [''0123456789'' ! n]
      else string_of_nat (n div 10) @ [''0123456789'' ! (n mod 10)])"

declare string_of_nat.simps [simp del]

text \<open>First half of the loop body: the asset alias. The presence check reads the key
  \<open>assset_id\<close>, as the source spells it; the result is written under \<open>asset_id\<close>.\<close>

definition resolve_asset :: "BlockchainReactor \<Rightarrow> nat \<Rightarrow> action \<Rightarrow> error option \<times> action" where
  "resolve_asset a i m =
     (let id = as_string (m ''assset_id'');
          alias = as_string (m ''asset_alias'')
      in if id = '''' \<and> alias \<noteq> '''' then
           (case assets_FindByAlias a alias of
              Inl err \<Rightarrow>
                (Some (WithDetailf err
                   (''invalid asset alias '' @ alias @ '' on action '' @ string_of_nat i)), m)
            | Inr asset \<Rightarrow> (None, m(''asset_id'' \<mapsto> VAssetID (AssetID asset))))
         else (None, m))"

text \<open>Second half of the loop body: the account alias.\<close>

definition resolve_account :: "BlockchainReactor \<Rightarrow> nat \<Rightarrow> action \<Rightarrow> error option \<times> action" where
  "resolve_account a i m =
     (let id = as_string (m ''account_id'');
          alias = as_string (m ''account_alias'')
      in if id = '''' \<and> alias \<noteq> '''' then
           (case accounts_FindByAlias a alias of
              Inl err \<Rightarrow>
                (Some (WithDetailf err
                   (''invalid account alias '' @ alias @ '' on action '' @ string_of_nat i)), m)
            | Inr acc \<Rightarrow> (None, m(''account_id'' \<mapsto> VString (ID acc))))
         else (None, m))"

text \<open>One iteration of the loop on the action at index \<open>i\<close>: the error returned, if any, and
  the action as the iteration leaves it (maps are mutated in place).\<close>

definition filter_action :: "BlockchainReactor \<Rightarrow> nat \<Rightarrow> action \<Rightarrow> error option \<times> action" where
  "filter_action a i m =
     (case resolve_asset a i m of
        (Some e, m') \<Rightarrow> (Some e, m')
      | (None, m') \<Rightarrow> resolve_account a i m')"

text \<open>The loop \<open>for i, m := range br.Actions\<close>, from index \<open>i\<close> on. It returns at the first
  error; the actions after the failing one are not visited.\<close>

fun filterAliases_from :: "BlockchainReactor \<Rightarrow> nat \<Rightarrow> action list \<Rightarrow> error option \<times> action list" where
  "filterAliases_from a i [] = (None, [])"
| "filterAliases_from a i (m # ms) =
     (case filter_action a i m of
        (Some e, m') \<Rightarrow> (Some e, m' # ms)
      | (None, m') \<Rightarrow>
          (case filterAliases_from a (Suc i) ms of (r, ms') \<Rightarrow> (r, m' # ms')))"

text \<open>\<open>filterAliases\<close>: the error (\<open>None\<close> is Go's \<open>nil\<close>) and the request as the call leaves it.\<close>

definition filterAliases :: "BlockchainReactor \<Rightarrow> BuildRequest \<Rightarrow> error option \<times> BuildRequest" where
  "filterAliases a br =
     (case filterAliases_from a 0 (Actions br) of
        (r, acts) \<Rightarrow> (r, br\<lparr>Actions := acts\<rparr>))"

section \<open>The two-phase handler gate (package node, \<open>waitHandler\<close> and \<open>rpcInit\<close>)\<close>

text \<open>
  A \<open>waitHandler\<close> holds the handler it forwards to (\<open>None\<close> is the nil interface value)
  and a \<open>sync.WaitGroup\<close>, which is its counter: \<open>Add n\<close> adds to it, \<open>Done\<close> takes one
  off and panics when the counter becomes negative, \<open>Wait\<close> returns only while the counter
  is zero. The zero value of the struct has no handler and a counter of zero.
\<close>

record 'h waitHandler =
  wh_h :: "'h option"
  wh_wg :: int

definition zero_waitHandler :: "'h waitHandler" where
  "zero_waitHandler = \<lparr> wh_h = None, wh_wg = 0 \<rparr>"

text \<open>
  Where a request stands inside \<open>ServeHTTP\<close>: blocked in \<open>wh.wg.Wait()\<close>; past the wait and
  about to read \<open>wh.h\<close>; or forwarded, with the value of \<open>wh.h\<close> it was forwarded to
  (\<open>Dispatched None\<close> is a call on the nil handler).
\<close>

datatype 'h phase = Waiting | Released | Dispatched "'h option"

text \<open>
  The gate as \<open>rpcInit\<close> runs it, with the requests served concurrently. \<open>init_pc\<close> counts
  the statements of \<open>rpcInit\<close> that touch the gate and have been executed:
  \<open>coreHandler.wg.Add(1)\<close>, \<open>go server.Serve(listener)\<close>, and the two statements of
  \<open>coreHandler.Set(h)\<close>, \<open>wh.h = h\<close> and \<open>wh.wg.Done()\<close>. Requests are named by numbers.
\<close>

record 'h gate =
  gate_wh :: "'h waitHandler"
  init_pc :: nat
  serving :: bool
  requests :: "nat \<rightharpoonup> 'h phase"
  panicked :: bool

definition gate_start :: "'h gate" where
  "gate_start =
     \<lparr> gate_wh = zero_waitHandler, init_pc = 0, serving = False,
       requests = Map.empty, panicked = False \<rparr>"

text \<open>The atomic steps of the interleaving: the next statement of \<open>rpcInit\<close>, the arrival of
  a new request at \<open>ServeHTTP\<close>, the return of a request's \<open>Wait\<close>, and a request's call
  \<open>wh.h.ServeHTTP(w, req)\<close>.\<close>

datatype gate_event = InitStep | Arrive nat | WaitReturn nat | Call nat

text \<open>The next statement of \<open>rpcInit\<close>, for the handler \<open>hnd\<close> it was given. After the last
  statement the thread has no step left.\<close>

definition rpcInit_step :: "'h \<Rightarrow> 'h gate \<Rightarrow> 'h gate option" where
  "rpcInit_step hnd s =
     (let wh = gate_wh s in
      if init_pc s = 0 then
        Some (s\<lparr>gate_wh := wh\<lparr>wh_wg := wh_wg wh + 1\<rparr>, init_pc := 1\<rparr>)
      else if init_pc s = 1 then
        Some (s\<lparr>serving := True, init_pc := 2\<rparr>)
      else if init_pc s = 2 then
        Some (s\<lparr>gate_wh := wh\<lparr>wh_h := Some hnd\<rparr>, init_pc := 3\<rparr>)
      else if init_pc s = 3 then
        (if wh_wg wh - 1 < 0 then Some (s\<lparr>panicked := True, init_pc := 4\<rparr>)
         else Some (s\<lparr>gate_wh := wh\<lparr>wh_wg := wh_wg wh - 1\<rparr>, init_pc := 4\<rparr>))
      else None)"

text \<open>One step of the system; \<open>None\<close> when the step is not enabled (a request can arrive
  only once the server runs, \<open>Wait\<close> returns only at counter zero).\<close>

fun gate_step :: "'h \<Rightarrow> gate_event \<Rightarrow> 'h gate \<Rightarrow> 'h gate option" where
  "gate_step hnd InitStep s = rpcInit_step hnd s"
| "gate_step hnd (Arrive r) s =
     (if serving s \<and> requests s r = None
      then Some (s\<lparr>requests := (requests s)(r \<mapsto> Waiting)\<rparr>) else None)"
| "gate_step hnd (WaitReturn r) s =
     (if requests s r = Some Waiting \<and> wh_wg (gate_wh s) = 0
      then Some (s\<lparr>requests := (requests s)(r \<mapsto> Released)\<rparr>) else None)"
| "gate_step hnd (Call r) s =
     (if requests s r = Some Released
      then Some (s\<lparr>requests := (requests s)(r \<mapsto> Dispatched (wh_h (gate_wh s)))\<rparr>)
      else None)"

text \<open>A schedule is a list of steps, run from a state; it is \<open>None\<close> when one of its steps
  is not enabled where it stands.\<close>

fun gate_run :: "'h \<Rightarrow> gate_event list \<Rightarrow> 'h gate \<Rightarrow> 'h gate option" where
  "gate_run hnd [] s = Some s"
| "gate_run hnd (e # es) s =
     (case gate_step hnd e s of None \<Rightarrow> None | Some s' \<Rightarrow> gate_run hnd es s')"

text \<open>What the number of executed statements of \<open>rpcInit\<close> allows a request to be: no
  request exists before the server runs, and none is past its wait before \<open>Set\<close> is done.\<close>

fun phase_ok :: "'h \<Rightarrow> nat \<Rightarrow> 'h phase option \<Rightarrow> bool" where
  "phase_ok hnd pc None = True"
| "phase_ok hnd pc (Some Waiting) = (2 \<le> pc)"
| "phase_ok hnd pc (Some Released) = (pc = 4)"
| "phase_ok hnd pc (Some (Dispatched x)) = (pc = 4 \<and> x = Some hnd)"

text \<open>What holds in every state a schedule reaches, for the handler \<open>hnd\<close>.\<close>

definition gate_inv :: "'h \<Rightarrow> 'h gate \<Rightarrow> bool" where
  "gate_inv hnd s \<longleftrightarrow>
     init_pc s \<le> 4
     \<and> wh_wg (gate_wh s) = (if 1 \<le> init_pc s \<and> init_pc s \<le> 3 then 1 else 0)
     \<and> wh_h (gate_wh s) = (if 3 \<le> init_pc s then Some hnd else None)
     \<and> (serving s \<longleftrightarrow> 2 \<le> init_pc s)
     \<and> (\<forall>r. phase_ok hnd (init_pc s) (requests s r))
     \<and> \<not> panicked s"

section \<open>The node (package node): construction, start and stop\<close>

subsection \<open>Strings\<close>

text \<open>\<open>strings.Split(s, ",")\<close> for a one-character separator: the pieces between the
  separators, one more than there are separators (so one empty piece for the empty string).\<close>

fun split_on :: "char \<Rightarrow> string \<Rightarrow> string list" where
  "split_on c [] = [[]]"
| "split_on c (x # xs) =
     (if x = c then [] # split_on c xs
      else (case split_on c xs of
              [] \<Rightarrow> [[x]]
            | w # ws \<Rightarrow> (x # w) # ws))"

text \<open>\<open>strings.SplitN(s, sep, 2)\<close> for a non-empty separator, when it yields two pieces:
  the text before the first occurrence of the separator and the text after it.\<close>

fun cut_at :: "string \<Rightarrow> string \<Rightarrow> (string \<times> string) option" where
  "cut_at sep [] = None"
| "cut_at sep (x # xs) =
     (if take (length sep) (x # xs) = sep then Some ([], drop (length sep) (x # xs))
      else (case cut_at sep xs of
              None \<Rightarrow> None
            | Some (before, after) \<Rightarrow> Some (x # before, after)))"

text \<open>\<open>ProtocolAndAddress\<close>: the protocol defaults to \<open>tcp\<close>.\<close>

definition ProtocolAndAddress :: "string \<Rightarrow> string \<times> string" where
  "ProtocolAndAddress listenAddr =
     (case cut_at ''://'' listenAddr of
        Some (protocol, address) \<Rightarrow> (protocol, address)
      | None \<Rightarrow> (''tcp'', listenAddr))"

subsection \<open>Configuration, switch, node\<close>

text \<open>The fields of the configuration that the node reads.\<close>

record Config =
  Moniker :: string
  FastSync :: bool
  ApiAddress :: string
  ProfListenAddress :: string
  Wallet_Enable :: bool
  P2P_ListenAddress :: string
  P2P_Seeds :: string
  P2P_SkipUPNP :: bool
  P2P_PexReactor :: bool
  P2P_AddrBookFile :: string
  RPC_ListenAddress :: string
  RPC_GRPCListenAddress :: string
  RPC_Unsafe :: bool

record NodeInfo =
  ni_PubKey :: string
  ni_Moniker :: string
  ni_Network :: string
  ni_Version :: string
  ni_ListenAddr :: string
  ni_Other :: "string list"

text \<open>The p2p switch as the node drives it: the reactors by name in the order they were
  added, the listeners by address, the published node info, and whether it was started.\<close>

record Switch =
  sw_reactors :: "string list"
  sw_listeners :: "string list"
  sw_nodeInfo :: "NodeInfo option"
  sw_privKey :: "string option"
  sw_running :: bool

definition NewSwitch :: Switch where
  "NewSwitch =
     \<lparr> sw_reactors = [], sw_listeners = [], sw_nodeInfo = None, sw_privKey = None,
       sw_running = False \<rparr>"

text \<open>The \<open>Node\<close> struct. The account manager and the asset registry are nil unless the
  wallet is enabled; the address book is nil unless the peer exchange reactor is on.\<close>

record Node =
  n_config :: Config
  n_privKey :: string
  n_sw :: Switch
  n_addrBook :: "string option"
  n_accounts :: bool
  n_assets :: bool
  n_rpcListeners :: "string list"

subsection \<open>The world outside the node\<close>

text \<open>
  Modelled from the spec: the sockets below \<open>net.Listen\<close>, \<open>rpcserver.StartHTTPServer\<close> and
  \<open>grpccore.StartGRPCServer\<close> are not among the sources. Binding an address that is already
  bound, by another process or by this one, fails; otherwise the process holds an open
  listener on the address until the listener is closed.
\<close>

record network =
  net_in_use :: "string list"
  net_listening :: "string list"

definition net_Listen :: "string \<Rightarrow> network \<Rightarrow> (error + string) \<times> network" where
  "net_Listen addr nw =
     (if addr \<in> set (net_in_use nw) \<or> addr \<in> set (net_listening nw)
      then (Inl (New (''listen '' @ addr @ '': address already in use'')), nw)
      else (Inr addr, nw\<lparr>net_listening := net_listening nw @ [addr]\<rparr>))"

definition listener_Close :: "string \<Rightarrow> network \<Rightarrow> network" where
  "listener_Close l nw = nw\<lparr>net_listening := removeAll l (net_listening nw)\<rparr>"

definition StartHTTPServer :: "string \<Rightarrow> network \<Rightarrow> (error + string) \<times> network" where
  "StartHTTPServer listenAddr nw = net_Listen listenAddr nw"

definition StartGRPCServer :: "string \<Rightarrow> network \<Rightarrow> (error + string) \<times> network" where
  "StartGRPCServer listenAddr nw = net_Listen listenAddr nw"

text \<open>The goroutines the node starts with \<open>go\<close>: the server of the API listener (with the
  listener it was given; \<open>None\<close> when \<open>net.Listen\<close> had failed and its error was dropped),
  the block processing of the account manager, and the profile server.\<close>

datatype task = ServeAPI "string option" | ProcessBlocks | ProfileServer string

text \<open>
  The state the node acts on: the block store with its chain, the pin store, the sockets,
  the errors logged with \<open>bytomlog.Error\<close>, the goroutines started, and the two settings
  of package \<open>rpccore\<close> that \<open>startRPC\<close> makes. The stores are kept abstract.
\<close>

record ('st, 'ps) world =
  w_store :: 'st
  w_pins :: 'ps
  w_net :: network
  w_log :: "error list"
  w_tasks :: "task list"
  w_rpccore_configured :: bool
  w_unsafe_routes :: bool

text \<open>
  What the node calls and does not define: the outcome of starting the event switch, the
  height of the store and the chain's \<open>AddBlock\<close> of the genesis block, \<open>LoadAll\<close> and
  \<open>CreatePin\<close> of the pin store with the two pin names of package \<open>account\<close>, the
  outcome of \<open>pseudohsm.New\<close>, the environment lookup \<open>env.String("LISTEN", default)\<close>, the
  generated private key and the public key of a private key, \<open>p2p.NewDefaultListener\<close>, the outcomes of the switch's \<open>Start\<close>
  and \<open>DialSeeds\<close>, the external address of a listener (its host and port, as
  \<open>host:port\<close>), and three version strings.
\<close>

record ('st, 'ps) deps =
  EventSwitch_Start :: "error option"
  store_Height :: "'st \<Rightarrow> 64 word"
  chain_AddBlock :: "'st \<Rightarrow> error option \<times> 'st"
  pin_LoadAll :: "'ps \<Rightarrow> error option \<times> 'ps"
  pin_CreatePin :: "string \<Rightarrow> 64 word \<Rightarrow> 'ps \<Rightarrow> error option \<times> 'ps"
  account_PinName :: string
  account_DeleteSpentsPinName :: string
  pseudohsm_New :: "error option"
  env_LISTEN :: "string \<Rightarrow> string"
  GenPrivKeyEd25519 :: string
  PubKey :: "string \<Rightarrow> string"
  NewDefaultListener :: "string \<Rightarrow> string \<Rightarrow> bool \<Rightarrow> network \<Rightarrow> string \<times> network"
  sw_Start :: "error option"
  sw_DialSeeds :: "string list \<Rightarrow> error option"
  ExternalAddress :: "string \<Rightarrow> string"
  version_Version :: string
  wire_Version :: string
  p2p_Version :: string

text \<open>How a call ends: \<open>cmn.Exit\<close> prints its message (here the text before \<open>%v\<close> and the
  error formatted there) and ends the process; \<open>bytomlog.Fatalkv\<close> logs the error and ends
  the process; or the function returns.\<close>

datatype 'a outcome = Exit string error | Fatal error | Return 'a

subsection \<open>The pin store\<close>

text \<open>
  Modelled from the spec: \<open>pin.Store.CreatePin\<close> is not among the sources. If a pin with the
  name exists, the call is a no-op and the existing height is preserved; otherwise the pin
  is created at the initial height. Creating an existing pin is not an error.
\<close>

definition CreatePin :: "string \<Rightarrow> 64 word \<Rightarrow> (string \<rightharpoonup> 64 word) \<Rightarrow> error option \<times> (string \<rightharpoonup> 64 word)" where
  "CreatePin name height pins =
     (case pins name of
        Some existing \<Rightarrow> (None, pins)
      | None \<Rightarrow> (None, pins(name \<mapsto> height)))"

subsection \<open>\<open>rpcInit\<close> and \<open>NewNode\<close>\<close>

text \<open>\<open>rpcInit\<close>, seen from the caller: it binds the API address and hands the listener to a
  server goroutine. The error of \<open>net.Listen\<close> is dropped. (The gate inside is the subject
  of the section on \<open>waitHandler\<close>.)\<close>

definition rpcInit :: "('st, 'ps) deps \<Rightarrow> Config \<Rightarrow> ('st, 'ps) world \<Rightarrow> ('st, 'ps) world" where
  "rpcInit d config w =
     (let listenAddr = env_LISTEN d (ApiAddress config) in
      case net_Listen listenAddr (w_net w) of
        (Inl err, nw) \<Rightarrow> w\<lparr>w_net := nw, w_tasks := w_tasks w @ [ServeAPI None]\<rparr>
      | (Inr listener, nw) \<Rightarrow> w\<lparr>w_net := nw, w_tasks := w_tasks w @ [ServeAPI (Some listener)]\<rparr>)"

text \<open>The genesis bootstrap: the genesis block is added when the height of the store is
  below one.\<close>

definition genesis_bootstrap :: "('st, 'ps) deps \<Rightarrow> 'st \<Rightarrow> error option \<times> 'st" where
  "genesis_bootstrap d st =
     (if store_Height d st < 1 then chain_AddBlock d st else (None, st))"

text \<open>The height the pins are created at: \<open>pinHeight := store.Height()\<close>, taken down by one
  when it is above zero.\<close>

definition pin_height :: "64 word \<Rightarrow> 64 word" where
  "pin_height h = (if 0 < h then h - 1 else h)"

text \<open>The loop over the pin names; the first error ends it.\<close>

fun create_pins :: "('st, 'ps) deps \<Rightarrow> string list \<Rightarrow> 64 word \<Rightarrow> 'ps \<Rightarrow> error option \<times> 'ps" where
  "create_pins d [] pinHeight ps = (None, ps)"
| "create_pins d (p # rest) pinHeight ps =
     (case pin_CreatePin d p pinHeight ps of
        (Some err, ps') \<Rightarrow> (Some err, ps')
      | (None, ps') \<Rightarrow> create_pins d rest pinHeight ps')"

text \<open>The block \<open>if config.Wallet.Enable\<close>: \<open>Some\<close> outcome when \<open>NewNode\<close> ends there,
  \<open>None\<close> when it goes on. A failure of \<open>LoadAll\<close> is logged and \<open>NewNode\<close> returns nil; a
  failure of \<open>CreatePin\<close> is fatal.\<close>

definition wallet_setup :: "('st, 'ps) deps \<Rightarrow> Config \<Rightarrow> ('st, 'ps) world \<Rightarrow> Node option outcome option \<times> ('st, 'ps) world" where
  "wallet_setup d config w =
     (if Wallet_Enable config then
        (case pin_LoadAll d (w_pins w) of
           (Some err, ps) \<Rightarrow> (Some (Return None), w\<lparr>w_pins := ps, w_log := w_log w @ [err]\<rparr>)
         | (None, ps) \<Rightarrow>
             (let pinHeight = pin_height (store_Height d (w_store w)) in
              case create_pins d [account_PinName d, account_DeleteSpentsPinName d] pinHeight ps of
                (Some err, ps') \<Rightarrow> (Some (Fatal err), w\<lparr>w_pins := ps'\<rparr>)
              | (None, ps') \<Rightarrow> (None, w\<lparr>w_pins := ps', w_tasks := w_tasks w @ [ProcessBlocks]\<rparr>)))
      else (None, w))"

definition AddReactor :: "string \<Rightarrow> Switch \<Rightarrow> Switch" where
  "AddReactor name sw = sw\<lparr>sw_reactors := sw_reactors sw @ [name]\<rparr>"

text \<open>\<open>NewNode\<close>: how the call ends and the world it leaves.\<close>

definition NewNode :: "('st, 'ps) deps \<Rightarrow> Config \<Rightarrow> ('st, 'ps) world \<Rightarrow> Node option outcome \<times> ('st, 'ps) world" where
  "NewNode d config w =
     (case EventSwitch_Start d of
        Some err \<Rightarrow> (Exit ''Failed to start switch: '' err, w)
      | None \<Rightarrow>
          (case genesis_bootstrap d (w_store w) of
             (Some err, st) \<Rightarrow>
               (Exit ''Failed to add genesisBlock to Chain: '' err, w\<lparr>w_store := st\<rparr>)
           | (None, st) \<Rightarrow>
               (case wallet_setup d config (w\<lparr>w_store := st\<rparr>) of
                  (Some out, w1) \<Rightarrow> (out, w1)
                | (None, w1) \<Rightarrow>
                    (case pseudohsm_New d of
                       Some err \<Rightarrow> (Exit ''initialize HSM failed: '' err, w1)
                     | None \<Rightarrow>
                         (let sw = AddReactor ''BLOCKCHAIN'' NewSwitch;
                              w2 = rpcInit d config w1;
                              addrBook = (if P2P_PexReactor config
                                          then Some (P2P_AddrBookFile config) else None);
                              sw' = (if P2P_PexReactor config then AddReactor ''PEX'' sw else sw);
                              profileHost = ProfListenAddress config;
                              w3 = (if profileHost \<noteq> ''''
                                    then w2\<lparr>w_tasks := w_tasks w2 @ [ProfileServer profileHost]\<rparr>
                                    else w2)
                          in (Return (Some
                                \<lparr> n_config = config, n_privKey = GenPrivKeyEd25519 d, n_sw = sw',
                                  n_addrBook = addrBook, n_accounts = Wallet_Enable config,
                                  n_assets = Wallet_Enable config, n_rpcListeners = [] \<rparr>),
                              w3))))))"

subsection \<open>\<open>startRPC\<close>, \<open>OnStart\<close> and \<open>OnStop\<close>\<close>

text \<open>\<open>makeNodeInfo\<close>: the listen address and the RPC address are added only when the
  switch has a listener; the first listener is the primary one.\<close>

definition makeNodeInfo :: "('st, 'ps) deps \<Rightarrow> Node \<Rightarrow> NodeInfo" where
  "makeNodeInfo d n =
     (let nodeInfo =
            \<lparr> ni_PubKey = PubKey d (n_privKey n),
              ni_Moniker = Moniker (n_config n), ni_Network = ''chain0'',
              ni_Version = version_Version d, ni_ListenAddr = '''',
              ni_Other = [''wire_version='' @ wire_Version d,
                          ''p2p_version='' @ p2p_Version d] \<rparr>
      in case sw_listeners (n_sw n) of
           [] \<Rightarrow> nodeInfo
         | p2pListener # others \<Rightarrow>
             nodeInfo
               \<lparr> ni_ListenAddr := ExternalAddress d p2pListener,
                 ni_Other := ni_Other nodeInfo
                               @ [''rpc_addr='' @ RPC_ListenAddress (n_config n)] \<rparr>)"

text \<open>The loop of \<open>startRPC\<close> over the HTTP listen addresses. At the first address that
  cannot be bound it returns the error alone; nothing is closed.\<close>

fun start_http_servers :: "string list \<Rightarrow> network \<Rightarrow> (error + string list) \<times> network" where
  "start_http_servers [] nw = (Inr [], nw)"
| "start_http_servers (listenAddr # rest) nw =
     (case StartHTTPServer listenAddr nw of
        (Inl err, nw') \<Rightarrow> (Inl err, nw')
      | (Inr listener, nw') \<Rightarrow>
          (case start_http_servers rest nw' of
             (Inl err, nw'') \<Rightarrow> (Inl err, nw'')
           | (Inr listeners, nw'') \<Rightarrow> (Inr (listener # listeners), nw'')))"

text \<open>\<open>startRPC\<close>: the listeners (HTTP first, gRPC last) or the error, and the world after.\<close>

definition startRPC :: "Node \<Rightarrow> ('st, 'ps) world \<Rightarrow> (error + string list) \<times> ('st, 'ps) world" where
  "startRPC n w =
     (let w1 = w\<lparr>w_rpccore_configured := True\<rparr>;
          listenAddrs = split_on CHR '','' (RPC_ListenAddress (n_config n));
          w2 = (if RPC_Unsafe (n_config n) then w1\<lparr>w_unsafe_routes := True\<rparr> else w1)
      in case start_http_servers listenAddrs (w_net w2) of
           (Inl err, nw) \<Rightarrow> (Inl err, w2\<lparr>w_net := nw\<rparr>)
         | (Inr listeners, nw) \<Rightarrow>
             (let grpcListenAddr = RPC_GRPCListenAddress (n_config n) in
              if grpcListenAddr \<noteq> '''' then
                (case StartGRPCServer grpcListenAddr nw of
                   (Inl err, nw') \<Rightarrow> (Inl err, w2\<lparr>w_net := nw'\<rparr>)
                 | (Inr listener, nw') \<Rightarrow> (Inr (listeners @ [listener]), w2\<lparr>w_net := nw'\<rparr>))
              else (Inr listeners, w2\<lparr>w_net := nw\<rparr>)))"

text \<open>\<open>OnStart\<close>: the error returned (\<open>None\<close> is nil), the node and the world after. An
  error of the switch's \<open>Start\<close>, of \<open>DialSeeds\<close> or of \<open>startRPC\<close> is returned at once.\<close>

definition OnStart :: "('st, 'ps) deps \<Rightarrow> Node \<Rightarrow> ('st, 'ps) world \<Rightarrow> (error option \<times> Node) \<times> ('st, 'ps) world" where
  "OnStart d n w =
     (case ProtocolAndAddress (P2P_ListenAddress (n_config n)) of
        (protocol, address) \<Rightarrow>
     (case NewDefaultListener d protocol address (P2P_SkipUPNP (n_config n)) (w_net w) of
        (l, nw) \<Rightarrow>
     (let w1 = w\<lparr>w_net := nw\<rparr>;
          n1 = n\<lparr>n_sw := (n_sw n)\<lparr>sw_listeners := sw_listeners (n_sw n) @ [l]\<rparr>\<rparr>;
          n2 = n1\<lparr>n_sw := (n_sw n1)\<lparr>sw_nodeInfo := Some (makeNodeInfo d n1),
                                    sw_privKey := Some (n_privKey n1)\<rparr>\<rparr>
      in case sw_Start d of
           Some err \<Rightarrow> ((Some err, n2), w1)
         | None \<Rightarrow>
             (let n3 = n2\<lparr>n_sw := (n_sw n2)\<lparr>sw_running := True\<rparr>\<rparr>;
                  dial = (if P2P_Seeds (n_config n) \<noteq> ''''
                          then sw_DialSeeds d (split_on CHR '','' (P2P_Seeds (n_config n)))
                          else None)
              in case dial of
                   Some err \<Rightarrow> ((Some err, n3), w1)
                 | None \<Rightarrow>
                     (if RPC_ListenAddress (n_config n) \<noteq> '''' then
                        (case startRPC n3 w1 of
                           (Inl err, w2) \<Rightarrow> ((Some err, n3), w2)
                         | (Inr listeners, w2) \<Rightarrow>
                             ((None, n3\<lparr>n_rpcListeners := listeners\<rparr>), w2))
                      else ((None, n3), w1))))))"

text \<open>\<open>OnStop\<close>: the switch is stopped and every listener of \<open>n.rpcListeners\<close> is closed.\<close>

definition OnStop :: "Node \<Rightarrow> ('st, 'ps) world \<Rightarrow> Node \<times> ('st, 'ps) world" where
  "OnStop n w =
     (n\<lparr>n_sw := (n_sw n)\<lparr>sw_running := False\<rparr>\<rparr>,
      w\<lparr>w_net := fold listener_Close (n_rpcListeners n) (w_net w)\<rparr>)"

text \<open>Whether a call ended the process.\<close>

fun terminates_process :: "'a outcome \<Rightarrow> bool" where
  "terminates_process (Exit msg err) = True"
| "terminates_process (Fatal err) = True"
| "terminates_process (Return r) = False"

section \<open>Concrete inputs\<close>

text \<open>A reactor whose asset registry knows the alias \<open>gold\<close> and whose account manager
  knows the alias \<open>alice\<close>; every other lookup fails.\<close>

definition example_reactor :: BlockchainReactor where
  "example_reactor =
     \<lparr> assets_FindByAlias =
         (\<lambda>s. if s = ''gold'' then Inr \<lparr>AssetID = ''a1'', asset_Alias = ''gold''\<rparr>
              else Inl (New ''not found'')),
       accounts_FindByAlias =
         (\<lambda>s. if s = ''alice'' then Inr \<lparr>ID = ''acc1'', account_Alias = ''alice''\<rparr>
              else Inl (New ''not found'')) \<rparr>"

text \<open>Two actions: a valid account alias first, an unknown asset alias second.\<close>

definition account_then_asset :: BuildRequest where
  "account_then_asset =
     \<lparr> Tx = None,
       Actions = [[''account_alias'' \<mapsto> VString ''alice''],
                  [''asset_alias'' \<mapsto> VString ''nope'']],
       TTL = 0 \<rparr>"

text \<open>Three actions: a valid account alias, an unknown asset alias with no asset id, and
  the valid account alias again.\<close>

definition account_asset_account :: BuildRequest where
  "account_asset_account =
     \<lparr> Tx = None,
       Actions = [[''account_alias'' \<mapsto> VString ''alice''],
                  [''asset_alias'' \<mapsto> VString ''nope''],
                  [''account_alias'' \<mapsto> VString ''alice'']],
       TTL = 0 \<rparr>"

text \<open>Two actions: a valid account alias, and then an action that carries an asset id and an
  account id next to its two aliases, of which the account alias is unknown.\<close>

definition both_ids_present :: BuildRequest where
  "both_ids_present =
     \<lparr> Tx = None,
       Actions = [[''account_alias'' \<mapsto> VString ''alice''],
                  [''asset_id'' \<mapsto> VString ''old'', ''asset_alias'' \<mapsto> VString ''gold'',
                   ''account_id'' \<mapsto> VString ''acc9'', ''account_alias'' \<mapsto> VString ''nobody'']],
       TTL = 0 \<rparr>"

text \<open>Schedules of the gate in which request 0 arrives once the server runs and before the
  handler is set, and the states they end in: the request held before \<open>Set\<close>, the request
  held after \<open>rpcInit\<close> is done, and the request forwarded.\<close>

definition arrives_early :: "gate_event list" where
  "arrives_early = [InitStep, InitStep, Arrive 0]"

definition early_request :: "gate_event list" where
  "early_request = [InitStep, InitStep, Arrive 0, InitStep, InitStep]"

definition early_request_served :: "gate_event list" where
  "early_request_served =
     [InitStep, InitStep, Arrive 0, InitStep, InitStep, WaitReturn 0, Call 0]"

definition request_before_set :: "string gate" where
  "request_before_set =
     \<lparr> gate_wh = \<lparr> wh_h = None, wh_wg = 1 \<rparr>, init_pc = 2, serving = True,
       requests = [0 \<mapsto> Waiting], panicked = False \<rparr>"

definition request_held :: "string gate" where
  "request_held =
     \<lparr> gate_wh = \<lparr> wh_h = Some ''core'', wh_wg = 0 \<rparr>, init_pc = 4, serving = True,
       requests = [0 \<mapsto> Waiting], panicked = False \<rparr>"

definition request_served :: "string gate" where
  "request_served =
     \<lparr> gate_wh = \<lparr> wh_h = Some ''core'', wh_wg = 0 \<rparr>, init_pc = 4, serving = True,
       requests = [0 \<mapsto> Dispatched (Some ''core'')], panicked = False \<rparr>"

text \<open>Collaborators that all succeed: the store is its height and adding the genesis block
  to the empty store brings it to height one; the pin store is the one modelled above; the
  listener of the switch binds its address when it is free.\<close>

definition example_deps :: "(64 word, string \<rightharpoonup> 64 word) deps" where
  "example_deps =
     \<lparr> EventSwitch_Start = None,
       store_Height = (\<lambda>st. st),
       chain_AddBlock = (\<lambda>st. (None, st + 1)),
       pin_LoadAll = (\<lambda>ps. (None, ps)),
       pin_CreatePin = CreatePin,
       account_PinName = ''account'',
       account_DeleteSpentsPinName = ''delete-account-spents'',
       pseudohsm_New = None,
       env_LISTEN = (\<lambda>dflt. dflt),
       GenPrivKeyEd25519 = ''key'',
       PubKey = (\<lambda>priv. ''pub-'' @ priv),
       NewDefaultListener = (\<lambda>protocol address skipUPNP nw. (address, snd (net_Listen address nw))),
       sw_Start = None,
       sw_DialSeeds = (\<lambda>seeds. None),
       ExternalAddress = (\<lambda>l. l),
       version_Version = ''0.1.0'',
       wire_Version = ''0.6.2'',
       p2p_Version = ''0.5.0'' \<rparr>"

definition example_config :: Config where
  "example_config =
     \<lparr> Moniker = ''anonymous'', FastSync = True, ApiAddress = ''0.0.0.0:1999'',
       ProfListenAddress = '''', Wallet_Enable = True,
       P2P_ListenAddress = ''tcp://0.0.0.0:46656'', P2P_Seeds = ''10.0.0.1:46656'',
       P2P_SkipUPNP = True, P2P_PexReactor = False, P2P_AddrBookFile = ''addrbook.json'',
       RPC_ListenAddress = '':8001,:8002'', RPC_GRPCListenAddress = '''',
       RPC_Unsafe = False \<rparr>"

text \<open>A world with a store at the given height, no pins, nothing bound by this process,
  and the given addresses bound by other processes.\<close>

definition example_world :: "64 word \<Rightarrow> string list \<Rightarrow> (64 word, string \<rightharpoonup> 64 word) world" where
  "example_world height taken =
     \<lparr> w_store = height, w_pins = Map.empty,
       w_net = \<lparr> net_in_use = taken, net_listening = [] \<rparr>,
       w_log = [], w_tasks = [], w_rpccore_configured = False, w_unsafe_routes = False \<rparr>"

text \<open>The node that \<open>NewNode\<close> returns for \<open>example_config\<close>.\<close>

definition example_node :: Node where
  "example_node =
     \<lparr> n_config = example_config, n_privKey = ''key'',
       n_sw = AddReactor ''BLOCKCHAIN'' NewSwitch,
       n_addrBook = None, n_accounts = True, n_assets = True, n_rpcListeners = [] \<rparr>"

text \<open>The world that \<open>NewNode\<close> leaves from \<open>example_world\<close> with nothing bound by others,
  for the height the store has after the genesis bootstrap.\<close>

definition constructed_world :: "64 word \<Rightarrow> (64 word, string \<rightharpoonup> 64 word) world" where
  "constructed_world height =
     \<lparr> w_store = height,
       w_pins = [''account'' \<mapsto> height - 1, ''delete-account-spents'' \<mapsto> height - 1],
       w_net = \<lparr> net_in_use = [], net_listening = [''0.0.0.0:1999''] \<rparr>,
       w_log = [], w_tasks = [ProcessBlocks, ServeAPI (Some ''0.0.0.0:1999'')],
       w_rpccore_configured = False, w_unsafe_routes = False \<rparr>"

text \<open>The same collaborators, but \<open>LoadAll\<close> of the pin store fails.\<close>

definition load_fails :: "(64 word, string \<rightharpoonup> 64 word) deps" where
  "load_fails = example_deps\<lparr>pin_LoadAll := (\<lambda>ps. (Some (New ''pin load failed''), ps))\<rparr>"

text \<open>The same collaborators, but \<open>DialSeeds\<close> fails.\<close>

definition dial_fails :: "(64 word, string \<rightharpoonup> 64 word) deps" where
  "dial_fails = example_deps\<lparr>sw_DialSeeds := (\<lambda>seeds. Some (New ''bad seed address''))\<rparr>"

text \<open>Starting \<open>example_node\<close> while another process holds \<open>:8002\<close>, the second of its two
  RPC addresses.\<close>

definition failed_start :: "(error option \<times> Node) \<times> (64 word, string \<rightharpoonup> 64 word) world" where
  "failed_start = OnStart example_deps example_node (example_world 1 ['':8002''])"

section \<open>Properties of alias resolution\<close>

lemma string_of_nat_digit: "n < 10 \<Longrightarrow> string_of_nat n = [''0123456789'' ! n]"
  by (subst string_of_nat.simps) simp

text \<open>As long as the iterations succeed, the loop rewrites the actions one by one and goes
  on with the rest of the list.\<close>

lemma filterAliases_from_prefix:
  "k \<le> length ms \<Longrightarrow> \<forall>j<k. fst (filter_action a (i + j) (ms ! j)) = None \<Longrightarrow>
   filterAliases_from a i ms =
     (fst (filterAliases_from a (i + k) (drop k ms)),
      map (\<lambda>j. snd (filter_action a (i + j) (ms ! j))) [0..<k]
        @ snd (filterAliases_from a (i + k) (drop k ms)))"
proof (induction k arbitrary: i ms)
  case 0
  then show ?case by simp
next
  case (Suc k)
  then obtain m ms' where ms: "ms = m # ms'" by (cases ms) auto
  from Suc.prems(2) have h0: "fst (filter_action a i m) = None"
    using ms by fastforce
  have hk: "\<forall>j<k. fst (filter_action a (Suc i + j) (ms' ! j)) = None"
    using Suc.prems(2) ms by fastforce
  have kl: "k \<le> length ms'" using Suc.prems(1) ms by simp
  note IH = Suc.IH [OF kl hk]
  have m1: "map (\<lambda>j. snd (filter_action a (i + j) (ms ! j))) [0..<Suc k]
     = snd (filter_action a i m) # map (\<lambda>j. snd (filter_action a (Suc i + j) (ms' ! j))) [0..<k]"
    using ms by (simp add: upt_conv_Cons map_Suc_upt [symmetric] del: upt_Suc)
  show ?case
    using h0 IH ms m1 by (auto split: prod.splits option.splits simp del: upt_Suc)
qed

text \<open>The first failing iteration ends the loop: its error is returned, the actions before
  it are rewritten, the actions after it are not visited.\<close>

lemma filterAliases_from_fail_at:
  assumes k: "k < length ms"
    and pre: "\<forall>j<k. fst (filter_action a (i + j) (ms ! j)) = None"
    and fail: "filter_action a (i + k) (ms ! k) = (Some e, m')"
  shows "filterAliases_from a i ms =
     (Some e, map (\<lambda>j. snd (filter_action a (i + j) (ms ! j))) [0..<k] @ m' # drop (Suc k) ms)"
proof -
  have d: "drop k ms = ms ! k # drop (Suc k) ms"
    using k by (simp add: Cons_nth_drop_Suc)
  have "filterAliases_from a (i + k) (drop k ms) = (Some e, m' # drop (Suc k) ms)"
    using fail by (simp add: d)
  then show ?thesis
    using filterAliases_from_prefix [of k ms a i] k pre by simp
qed

lemma filterAliases_from_nth:
  assumes k: "k < length ms"
    and pre: "\<forall>j<k. fst (filter_action a (i + j) (ms ! j)) = None"
  shows "snd (filterAliases_from a i ms) ! k = snd (filter_action a (i + k) (ms ! k))"
proof -
  have d: "drop k ms = ms ! k # drop (Suc k) ms"
    using k by (simp add: Cons_nth_drop_Suc)
  have hd: "snd (filterAliases_from a (i + k) (drop k ms)) ! 0
              = snd (filter_action a (i + k) (ms ! k))"
    by (cases "filter_action a (i + k) (ms ! k)";
        cases "filterAliases_from a (Suc (i + k)) (drop (Suc k) ms)")
       (auto simp: d split: option.splits)
  have "snd (filterAliases_from a i ms) =
      map (\<lambda>j. snd (filter_action a (i + j) (ms ! j))) [0..<k]
        @ snd (filterAliases_from a (i + k) (drop k ms))"
    using filterAliases_from_prefix [of k ms a i] k pre by simp
  then show ?thesis
    using hd by (simp add: nth_append)
qed

lemma filter_action_unknown_asset:
  assumes "as_string (m ''assset_id'') = ''''"
    and "as_string (m ''asset_alias'') = alias" and "alias \<noteq> ''''"
    and "assets_FindByAlias a alias = Inl err"
  shows "filter_action a i m =
    (Some (WithDetailf err (''invalid asset alias '' @ alias @ '' on action '' @ string_of_nat i)), m)"
  using assms by (simp add: filter_action_def resolve_asset_def)

text \<open>The whole call, when the first failing iteration fails on its asset alias.\<close>

lemma filterAliases_first_failure:
  assumes "k < length (Actions br)"
    and "\<forall>j<k. fst (filter_action a j (Actions br ! j)) = None"
    and "as_string ((Actions br ! k) ''assset_id'') = ''''"
    and "as_string ((Actions br ! k) ''asset_alias'') = alias"
    and "alias \<noteq> ''''"
    and "assets_FindByAlias a alias = Inl err"
  shows "filterAliases a br =
     (Some (WithDetailf err (''invalid asset alias '' @ alias @ '' on action '' @ string_of_nat k)),
      br\<lparr>Actions := map (\<lambda>j. snd (filter_action a j (Actions br ! j))) [0..<k]
                     @ drop k (Actions br)\<rparr>)"
proof -
  let ?e = "WithDetailf err (''invalid asset alias '' @ alias @ '' on action '' @ string_of_nat k)"
  have fail: "filter_action a (0 + k) (Actions br ! k) = (Some ?e, Actions br ! k)"
    using assms(3-6) by (simp add: filter_action_unknown_asset)
  have pre: "\<forall>j<k. fst (filter_action a (0 + j) (Actions br ! j)) = None"
    using assms(2) by simp
  have "filterAliases_from a 0 (Actions br) =
      (Some ?e, map (\<lambda>j. snd (filter_action a (0 + j) (Actions br ! j))) [0..<k]
                  @ Actions br ! k # drop (Suc k) (Actions br))"
    by (rule filterAliases_from_fail_at [OF assms(1) pre fail])
  moreover have "Actions br ! k # drop (Suc k) (Actions br) = drop k (Actions br)"
    using assms(1) by (simp add: Cons_nth_drop_Suc)
  ultimately show ?thesis
    by (simp add: filterAliases_def)
qed

text \<open>An action with no asset alias, no account id and an account alias that the account
  manager knows comes out of its iteration with the resolved \<open>account_id\<close>.\<close>

lemma filter_action_account_alias:
  assumes "as_string (m ''asset_alias'') = ''''"
    and "as_string (m ''account_id'') = ''''"
    and "as_string (m ''account_alias'') \<noteq> ''''"
    and "accounts_FindByAlias a (as_string (m ''account_alias'')) = Inr acc"
  shows "filter_action a i m = (None, m(''account_id'' \<mapsto> VString (ID acc)))"
  using assms by (simp add: filter_action_def resolve_asset_def resolve_account_def)

text \<open>
  Claim C9, as the code has it. Let action \<open>k\<close> be the first action whose resolution fails,
  let no action up to and including it hold a non-empty string under the misspelt key
  \<open>assset_id\<close>, and let action \<open>k\<close> reference an unknown asset alias with no asset id: its
  \<open>asset_alias\<close> is a non-empty string that the registry does not know, and it holds no
  non-empty string under \<open>asset_id\<close>. Then \<open>filterAliases\<close> returns the registry's error
  with the detail \<open>invalid asset alias <alias> on action <k>\<close>; the request keeps its number
  of actions; action \<open>k\<close> and every action after it are as they were, so that an action
  with a valid account alias that comes after the failing action is untouched; and an
  action before it that has no asset alias, no account id and an account alias that the
  account manager knows has been rewritten in place: it carries the resolved \<open>account_id\<close>.
\<close>

theorem filterAliases_unknown_asset_alias:
  assumes "k < length (Actions br)"
    and "\<forall>j<k. fst (filter_action a j (Actions br ! j)) = None"
    and "\<forall>j\<le>k. as_string ((Actions br ! j) ''assset_id'') = ''''"
    and "as_string ((Actions br ! k) ''asset_id'') = ''''"
    and "as_string ((Actions br ! k) ''asset_alias'') = alias"
    and "alias \<noteq> ''''"
    and "assets_FindByAlias a alias = Inl err"
  shows "fst (filterAliases a br) =
           Some (WithDetailf err
                   (''invalid asset alias '' @ alias @ '' on action '' @ string_of_nat k))
       \<and> length (Actions (snd (filterAliases a br))) = length (Actions br)
       \<and> drop k (Actions (snd (filterAliases a br))) = drop k (Actions br)
       \<and> (\<forall>j acc. j < k
             \<and> as_string ((Actions br ! j) ''asset_alias'') = ''''
             \<and> as_string ((Actions br ! j) ''account_id'') = ''''
             \<and> as_string ((Actions br ! j) ''account_alias'') \<noteq> ''''
             \<and> accounts_FindByAlias a (as_string ((Actions br ! j) ''account_alias'')) = Inr acc
             \<longrightarrow> Actions (snd (filterAliases a br)) ! j
                   = (Actions br ! j)(''account_id'' \<mapsto> VString (ID acc)))"
proof -
  let ?pre = "map (\<lambda>j. snd (filter_action a j (Actions br ! j))) [0..<k]"
  have misspelt: "as_string ((Actions br ! k) ''assset_id'') = ''''"
    using assms(3) by simp
  have whole: "filterAliases a br =
     (Some (WithDetailf err (''invalid asset alias '' @ alias @ '' on action '' @ string_of_nat k)),
      br\<lparr>Actions := ?pre @ drop k (Actions br)\<rparr>)"
    by (rule filterAliases_first_failure [OF assms(1,2) misspelt assms(5-7)])
  have out: "Actions (snd (filterAliases a br)) = ?pre @ drop k (Actions br)"
    by (simp add: whole)
  have len: "length ?pre = k" by simp
  have c1: "fst (filterAliases a br) =
           Some (WithDetailf err
                   (''invalid asset alias '' @ alias @ '' on action '' @ string_of_nat k))"
    by (simp add: whole)
  have c2: "length (Actions (snd (filterAliases a br))) = length (Actions br)"
    using assms(1) by (simp add: out)
  have c3: "drop k (Actions (snd (filterAliases a br))) = drop k (Actions br)"
    by (simp add: out)
  have c4: "Actions (snd (filterAliases a br)) ! j
              = (Actions br ! j)(''account_id'' \<mapsto> VString (ID acc))"
    if "j < k" "as_string ((Actions br ! j) ''asset_alias'') = ''''"
       "as_string ((Actions br ! j) ''account_id'') = ''''"
       "as_string ((Actions br ! j) ''account_alias'') \<noteq> ''''"
       "accounts_FindByAlias a (as_string ((Actions br ! j) ''account_alias'')) = Inr acc"
    for j acc
  proof -
    have "Actions (snd (filterAliases a br)) ! j = snd (filter_action a j (Actions br ! j))"
      using that(1) by (simp add: out nth_append)
    then show ?thesis
      by (simp add: filter_action_account_alias [OF that(2-5)])
  qed
  show ?thesis
    using c1 c2 c3 c4 by blast
qed

text \<open>The theorem at the request \<open>account_asset_account\<close>: the failing action is action 1,
  action 0 comes back with its account alias resolved, and action 2 comes back as it was.\<close>

theorem filterAliases_unknown_asset_alias_witness:
  "fst (filterAliases example_reactor account_asset_account)
     = Some (WithDetailf (New ''not found'') ''invalid asset alias nope on action 1'')
   \<and> Actions (snd (filterAliases example_reactor account_asset_account)) ! 0
       = [''account_alias'' \<mapsto> VString ''alice'', ''account_id'' \<mapsto> VString ''acc1'']
   \<and> drop 1 (Actions (snd (filterAliases example_reactor account_asset_account)))
       = [[''asset_alias'' \<mapsto> VString ''nope''], [''account_alias'' \<mapsto> VString ''alice'']]"
proof -
  have h1: "1 < length (Actions account_asset_account)"
    by (simp add: account_asset_account_def)
  have h2: "\<forall>j<1. fst (filter_action example_reactor j (Actions account_asset_account ! j)) = None"
    by (simp add: account_asset_account_def example_reactor_def filter_action_def
          resolve_asset_def resolve_account_def)
  have h3: "\<forall>j\<le>1. as_string ((Actions account_asset_account ! j) ''assset_id'') = ''''"
    by (simp add: account_asset_account_def le_Suc_eq)
  have h4: "as_string ((Actions account_asset_account ! 1) ''asset_id'') = ''''"
    and h5: "as_string ((Actions account_asset_account ! 1) ''asset_alias'') = ''nope''"
    and h6: "''nope'' \<noteq> ''''"
    and h7: "assets_FindByAlias example_reactor ''nope'' = Inl (New ''not found'')"
    by (simp_all add: account_asset_account_def example_reactor_def)
  note r = filterAliases_unknown_asset_alias [OF h1 h2 h3 h4 h5 h6 h7]
  have e: "fst (filterAliases example_reactor account_asset_account)
     = Some (WithDetailf (New ''not found'') ''invalid asset alias nope on action 1'')"
    using r [THEN conjunct1] by (simp add: string_of_nat_digit)
  have d: "drop 1 (Actions (snd (filterAliases example_reactor account_asset_account)))
       = [[''asset_alias'' \<mapsto> VString ''nope''], [''account_alias'' \<mapsto> VString ''alice'']]"
    using r [THEN conjunct2, THEN conjunct2, THEN conjunct1]
    by (simp add: account_asset_account_def)
  have m: "Actions (snd (filterAliases example_reactor account_asset_account)) ! 0
       = (Actions account_asset_account ! 0)(''account_id'' \<mapsto> VString ''acc1'')"
    using r [THEN conjunct2, THEN conjunct2, THEN conjunct2, rule_format,
             of 0 "\<lparr>ID = ''acc1'', account_Alias = ''alice''\<rparr>"]
    by (simp add: account_asset_account_def example_reactor_def)
  show ?thesis
    using e d m by (simp add: account_asset_account_def)
qed

text \<open>Claim C9 as the specification states it fails on the request \<open>account_then_asset\<close>: the call returns
  the error for action 1, and the action with the valid account alias, which had no
  \<open>account_id\<close>, has one in the output.\<close>

theorem filterAliases_mutates_earlier_action:
  "fst (filterAliases example_reactor account_then_asset) =
     Some (WithDetailf (New ''not found'') ''invalid asset alias nope on action 1'')
   \<and> (Actions account_then_asset ! 0) ''account_alias'' = Some (VString ''alice'')
   \<and> (Actions account_then_asset ! 0) ''account_id'' = None
   \<and> (Actions (snd (filterAliases example_reactor account_then_asset)) ! 0) ''account_id''
       = Some (VString ''acc1'')"
  by (simp add: filterAliases_def filter_action_def resolve_asset_def resolve_account_def
      account_then_asset_def example_reactor_def string_of_nat_digit)

text \<open>
  Claim C10. Let the actions before action \<open>k\<close> resolve without error. If action \<open>k\<close> has a
  non-empty string under \<open>asset_alias\<close> that the registry knows, and no non-empty string
  under the key \<open>assset_id\<close> that the presence check reads, then the call leaves the
  resolved asset identifier under \<open>asset_id\<close>, whatever the action held under \<open>asset_id\<close>
  before. By contrast, if action \<open>k\<close> has a non-empty string under \<open>account_id\<close>, the
  account half of its iteration does nothing: the iteration is its asset half alone, and
  \<open>account_id\<close> is as it was.
\<close>

theorem filterAliases_presence_checks:
  assumes "k < length (Actions br)"
    and "\<forall>j<k. fst (filter_action a j (Actions br ! j)) = None"
  shows "(as_string ((Actions br ! k) ''assset_id'') = ''''
          \<and> as_string ((Actions br ! k) ''asset_alias'') = alias \<and> alias \<noteq> ''''
          \<and> assets_FindByAlias a alias = Inr asset
          \<longrightarrow> (Actions (snd (filterAliases a br)) ! k) ''asset_id''
                = Some (VAssetID (AssetID asset)))
       \<and> (as_string ((Actions br ! k) ''account_id'') \<noteq> ''''
          \<longrightarrow> filter_action a k (Actions br ! k) = resolve_asset a k (Actions br ! k)
            \<and> (Actions (snd (filterAliases a br)) ! k) ''account_id''
                = (Actions br ! k) ''account_id'')"
proof -
  let ?m = "Actions br ! k"
  have pre: "\<forall>j<k. fst (filter_action a (0 + j) (Actions br ! j)) = None"
    using assms(2) by simp
  have out: "Actions (snd (filterAliases a br)) ! k = snd (filter_action a k ?m)"
    using filterAliases_from_nth [OF assms(1) pre]
    by (cases "filterAliases_from a 0 (Actions br)") (simp add: filterAliases_def)
  have asset: "snd (filter_action a k ?m) ''asset_id'' = Some (VAssetID (AssetID asset))"
    if "as_string (?m ''assset_id'') = ''''" "as_string (?m ''asset_alias'') = alias"
       "alias \<noteq> ''''" "assets_FindByAlias a alias = Inr asset"
    using that
    by (auto simp: filter_action_def resolve_asset_def resolve_account_def Let_def
             split: sum.splits)
  have account: "filter_action a k ?m = resolve_asset a k ?m
       \<and> snd (filter_action a k ?m) ''account_id'' = ?m ''account_id''"
    if "as_string (?m ''account_id'') \<noteq> ''''"
    using that
    by (auto simp: filter_action_def resolve_asset_def resolve_account_def Let_def
             split: sum.splits)
  show ?thesis
    unfolding out using asset account by blast
qed

text \<open>The theorem at the request \<open>both_ids_present\<close>, for its action 1: the asset id \<open>old\<close>
  is overwritten, the account id \<open>acc9\<close> stays, and the unknown account alias raises no
  error.\<close>

theorem filterAliases_presence_checks_witness:
  "(Actions both_ids_present ! 1) ''asset_id'' = Some (VString ''old'')
   \<and> fst (filterAliases example_reactor both_ids_present) = None
   \<and> (Actions (snd (filterAliases example_reactor both_ids_present)) ! 1) ''asset_id''
        = Some (VAssetID ''a1'')
   \<and> (Actions (snd (filterAliases example_reactor both_ids_present)) ! 1) ''account_id''
        = Some (VString ''acc9'')"
  using filterAliases_presence_checks
          [of 1 both_ids_present example_reactor "''gold''" "\<lparr>AssetID = ''a1'', asset_Alias = ''gold''\<rparr>"]
  by (simp add: both_ids_present_def example_reactor_def filterAliases_def
         filter_action_def resolve_asset_def resolve_account_def)

section \<open>Properties of the handler gate\<close>

lemma gate_inv_start: "gate_inv hnd gate_start"
  by (simp add: gate_inv_def gate_start_def zero_waitHandler_def)

lemma phase_ok_Suc: "phase_ok hnd pc ph \<Longrightarrow> pc < 4 \<Longrightarrow> phase_ok hnd (Suc pc) ph"
  by (induction hnd pc ph rule: phase_ok.induct) simp_all

lemma rpcInit_step_inv:
  assumes inv: "gate_inv hnd s" and st: "rpcInit_step hnd s = Some s'"
  shows "gate_inv hnd s'"
proof -
  have ok: "phase_ok hnd (init_pc s) (requests s r)" for r
    using inv by (simp add: gate_inv_def)
  have wg: "wh_wg (gate_wh s) = (if 1 \<le> init_pc s \<and> init_pc s \<le> 3 then 1 else 0)"
    and h: "wh_h (gate_wh s) = (if 3 \<le> init_pc s then Some hnd else None)"
    and srv: "serving s \<longleftrightarrow> 2 \<le> init_pc s"
    and pan: "\<not> panicked s"
    using inv by (simp_all add: gate_inv_def)
  have "init_pc s \<le> 4" using inv by (simp add: gate_inv_def)
  then consider "init_pc s = 0" | "init_pc s = 1" | "init_pc s = 2" | "init_pc s = 3"
    | "init_pc s = 4" by linarith
  then show ?thesis
  proof cases
    case 1
    with st have s': "s' = s\<lparr>gate_wh := (gate_wh s)\<lparr>wh_wg := wh_wg (gate_wh s) + 1\<rparr>, init_pc := 1\<rparr>"
      by (simp add: rpcInit_step_def Let_def)
    have "phase_ok hnd 1 (requests s r)" for r
      using phase_ok_Suc [OF ok [of r]] 1 by simp
    then show ?thesis using wg h srv pan 1 by (simp add: gate_inv_def s')
  next
    case 2
    with st have s': "s' = s\<lparr>serving := True, init_pc := 2\<rparr>"
      by (simp add: rpcInit_step_def Let_def)
    have "phase_ok hnd 2 (requests s r)" for r
      using phase_ok_Suc [OF ok [of r]] 2 by (simp add: eval_nat_numeral)
    then show ?thesis using wg h srv pan 2 by (simp add: gate_inv_def s')
  next
    case 3
    with st have s': "s' = s\<lparr>gate_wh := (gate_wh s)\<lparr>wh_h := Some hnd\<rparr>, init_pc := 3\<rparr>"
      by (simp add: rpcInit_step_def Let_def)
    have "phase_ok hnd 3 (requests s r)" for r
      using phase_ok_Suc [OF ok [of r]] 3 by (simp add: eval_nat_numeral)
    then show ?thesis using wg h srv pan 3 by (simp add: gate_inv_def s')
  next
    case 4
    have wg1: "wh_wg (gate_wh s) = 1" using wg 4 by simp
    with st 4 have s': "s' = s\<lparr>gate_wh := (gate_wh s)\<lparr>wh_wg := wh_wg (gate_wh s) - 1\<rparr>, init_pc := 4\<rparr>"
      by (simp add: rpcInit_step_def Let_def)
    have "phase_ok hnd 4 (requests s r)" for r
      using phase_ok_Suc [OF ok [of r]] 4 by (simp add: eval_nat_numeral)
    then show ?thesis using wg1 h srv pan 4 by (simp add: gate_inv_def s')
  next
    case 5
    with st show ?thesis by (simp add: rpcInit_step_def Let_def)
  qed
qed

lemma gate_step_inv:
  assumes inv: "gate_inv hnd s" and st: "gate_step hnd e s = Some s'"
  shows "gate_inv hnd s'"
proof -
  have ok: "phase_ok hnd (init_pc s) (requests s r)" for r
    using inv by (simp add: gate_inv_def)
  have wg: "wh_wg (gate_wh s) = (if 1 \<le> init_pc s \<and> init_pc s \<le> 3 then 1 else 0)"
    and h: "wh_h (gate_wh s) = (if 3 \<le> init_pc s then Some hnd else None)"
    and srv: "serving s \<longleftrightarrow> 2 \<le> init_pc s"
    and pan: "\<not> panicked s"
    and le: "init_pc s \<le> 4"
    using inv by (simp_all add: gate_inv_def)
  show ?thesis
  proof (cases e)
    case InitStep
    then show ?thesis using inv st by (simp add: rpcInit_step_inv)
  next
    case (Arrive r)
    with st have en: "serving s" and s': "s' = s\<lparr>requests := (requests s)(r \<mapsto> Waiting)\<rparr>"
      by (simp_all split: if_splits)
    have "phase_ok hnd (init_pc s) (((requests s)(r \<mapsto> Waiting)) r')" for r'
      using ok [of r'] en srv by simp
    then show ?thesis using wg h srv pan le by (simp add: gate_inv_def s')
  next
    case (WaitReturn r)
    with st have en: "wh_wg (gate_wh s) = 0" "requests s r = Some Waiting"
      and s': "s' = s\<lparr>requests := (requests s)(r \<mapsto> Released)\<rparr>"
      by (simp_all split: if_splits)
    have "2 \<le> init_pc s" using ok [of r] en(2) by simp
    then have pc: "init_pc s = 4" using en(1) wg le by (simp split: if_splits)
    have "phase_ok hnd (init_pc s) (((requests s)(r \<mapsto> Released)) r')" for r'
      using ok [of r'] pc by simp
    then show ?thesis using wg h srv pan le by (simp add: gate_inv_def s')
  next
    case (Call r)
    with st have en: "requests s r = Some Released"
      and s': "s' = s\<lparr>requests := (requests s)(r \<mapsto> Dispatched (wh_h (gate_wh s)))\<rparr>"
      by (simp_all split: if_splits)
    have pc: "init_pc s = 4" using ok [of r] en by simp
    have "phase_ok hnd (init_pc s) (((requests s)(r \<mapsto> Dispatched (wh_h (gate_wh s)))) r')" for r'
      using ok [of r'] pc h by simp
    then show ?thesis using wg h srv pan le by (simp add: gate_inv_def s')
  qed
qed


lemma gate_run_inv:
  "gate_inv hnd s \<Longrightarrow> gate_run hnd es s = Some s' \<Longrightarrow> gate_inv hnd s'"
proof (induction es arbitrary: s)
  case Nil
  then show ?case by simp
next
  case (Cons e es)
  from Cons.prems(2) obtain s1 where s1: "gate_step hnd e s = Some s1"
    and rest: "gate_run hnd es s1 = Some s'"
    by (cases "gate_step hnd e s") simp_all
  have "gate_inv hnd s1" using gate_step_inv [OF Cons.prems(1) s1] .
  then show ?case using Cons.IH rest by blast
qed

text \<open>
  Claim C1, for the gate as \<open>rpcInit\<close> runs it (the counter raised to one before the server
  runs, \<open>Set\<close> called once) and every interleaving of its statements with the steps of any
  number of requests. In every state reached:
  every request that has been forwarded was forwarded to the handler given to \<open>Set\<close>, never
  to the nil handler; a request is past its \<open>Wait\<close> only when \<open>Set\<close> has returned, and
  while \<open>Set\<close> has not returned no \<open>Wait\<close> can return; once \<open>Set\<close> has returned, every held
  request and every request still to arrive can run to its end, where it is forwarded to
  that handler; and \<open>Done\<close> never panics.
\<close>

theorem waitHandler_gate:
  assumes "gate_run hnd es gate_start = Some s"
  shows "(\<forall>r x. requests s r = Some (Dispatched x) \<longrightarrow> x = Some hnd)
       \<and> (\<forall>r. requests s r = Some Released \<or> (\<exists>x. requests s r = Some (Dispatched x))
              \<longrightarrow> init_pc s = 4)
       \<and> (init_pc s < 4 \<longrightarrow> (\<forall>r. gate_step hnd (WaitReturn r) s = None))
       \<and> (init_pc s = 4 \<longrightarrow>
            (\<forall>r. requests s r = Some Waiting \<longrightarrow>
               gate_run hnd [WaitReturn r, Call r] s
                 = Some (s\<lparr>requests := (requests s)(r \<mapsto> Dispatched (Some hnd))\<rparr>))
          \<and> (\<forall>r. requests s r = None \<longrightarrow>
               gate_run hnd [Arrive r, WaitReturn r, Call r] s
                 = Some (s\<lparr>requests := (requests s)(r \<mapsto> Dispatched (Some hnd))\<rparr>)))
       \<and> \<not> panicked s"
proof -
  have inv: "gate_inv hnd s"
    using gate_run_inv [OF gate_inv_start assms] .
  have ok: "phase_ok hnd (init_pc s) (requests s r)" for r
    using inv by (simp add: gate_inv_def)
  have wg: "wh_wg (gate_wh s) = (if 1 \<le> init_pc s \<and> init_pc s \<le> 3 then 1 else 0)"
    and h: "wh_h (gate_wh s) = (if 3 \<le> init_pc s then Some hnd else None)"
    and srv: "serving s \<longleftrightarrow> 2 \<le> init_pc s"
    and pan: "\<not> panicked s"
    using inv by (simp_all add: gate_inv_def)
  have rel: "init_pc s = 4" if "requests s r = Some Released" for r
    using ok [of r] that by simp
  have dis: "init_pc s = 4 \<and> x = Some hnd" if "requests s r = Some (Dispatched x)" for r x
    using ok [of r] that by simp
  have c1: "\<forall>r x. requests s r = Some (Dispatched x) \<longrightarrow> x = Some hnd"
    using dis by blast
  have c2: "\<forall>r. requests s r = Some Released \<or> (\<exists>x. requests s r = Some (Dispatched x))
              \<longrightarrow> init_pc s = 4"
    using rel dis by blast
  have c3: "init_pc s < 4 \<longrightarrow> (\<forall>r. gate_step hnd (WaitReturn r) s = None)"
  proof (intro impI allI)
    fix r assume lt: "init_pc s < 4"
    show "gate_step hnd (WaitReturn r) s = None"
    proof (cases "init_pc s = 0")
      case True
      then have "requests s r \<noteq> Some Waiting" using ok [of r] by auto
      then show ?thesis by simp
    next
      case False
      then have "wh_wg (gate_wh s) = 1" using wg lt by simp
      then show ?thesis by simp
    qed
  qed
  have c4: "init_pc s = 4 \<longrightarrow>
            (\<forall>r. requests s r = Some Waiting \<longrightarrow>
               gate_run hnd [WaitReturn r, Call r] s
                 = Some (s\<lparr>requests := (requests s)(r \<mapsto> Dispatched (Some hnd))\<rparr>))
          \<and> (\<forall>r. requests s r = None \<longrightarrow>
               gate_run hnd [Arrive r, WaitReturn r, Call r] s
                 = Some (s\<lparr>requests := (requests s)(r \<mapsto> Dispatched (Some hnd))\<rparr>))"
  proof (intro impI)
    assume pc: "init_pc s = 4"
    have w0: "wh_wg (gate_wh s) = 0" and hs: "wh_h (gate_wh s) = Some hnd" and sv: "serving s"
      using wg h srv pc by simp_all
    show "(\<forall>r. requests s r = Some Waiting \<longrightarrow>
               gate_run hnd [WaitReturn r, Call r] s
                 = Some (s\<lparr>requests := (requests s)(r \<mapsto> Dispatched (Some hnd))\<rparr>))
          \<and> (\<forall>r. requests s r = None \<longrightarrow>
               gate_run hnd [Arrive r, WaitReturn r, Call r] s
                 = Some (s\<lparr>requests := (requests s)(r \<mapsto> Dispatched (Some hnd))\<rparr>))"
      by (simp add: w0 hs sv)
  qed
  show ?thesis
    using c1 c2 c3 c4 pan by blast
qed



lemma arrives_early_run: "gate_run ''core'' arrives_early gate_start = Some request_before_set"
  by (simp add: arrives_early_def gate_start_def request_before_set_def zero_waitHandler_def
        rpcInit_step_def)

lemma early_request_run: "gate_run ''core'' early_request gate_start = Some request_held"
  by (simp add: early_request_def gate_start_def request_held_def zero_waitHandler_def
        rpcInit_step_def)

lemma early_request_served_run:
  "gate_run ''core'' early_request_served gate_start = Some request_served"
  by (simp add: early_request_served_def gate_start_def request_served_def
        zero_waitHandler_def rpcInit_step_def)

text \<open>The theorem at three schedules: request 0, which arrived before \<open>Set\<close>, cannot leave
  its wait while \<open>Set\<close> has not returned; it is held when \<open>rpcInit\<close> is done and then runs
  to its end; and at its end it has been forwarded to the handler that was set.\<close>

theorem waitHandler_gate_witness:
  "gate_run ''core'' arrives_early gate_start = Some request_before_set
   \<and> init_pc request_before_set = 2
   \<and> gate_step ''core'' (WaitReturn 0) request_before_set = None
   \<and> gate_run ''core'' early_request gate_start = Some request_held
   \<and> requests request_held 0 = Some Waiting
   \<and> gate_run ''core'' [WaitReturn 0, Call 0] request_held
       = Some (request_held\<lparr>requests := [0 \<mapsto> Dispatched (Some ''core'')]\<rparr>)
   \<and> gate_run ''core'' [Arrive 1, WaitReturn 1, Call 1] request_held
       = Some (request_held\<lparr>requests := [0 \<mapsto> Waiting, 1 \<mapsto> Dispatched (Some ''core'')]\<rparr>)
   \<and> gate_run ''core'' early_request_served gate_start = Some request_served
   \<and> requests request_served 0 = Some (Dispatched (Some ''core''))
   \<and> init_pc request_served = 4"
proof -
  note before = waitHandler_gate [OF arrives_early_run]
  note held = waitHandler_gate [OF early_request_run]
  note served = waitHandler_gate [OF early_request_served_run]
  have pc_before: "init_pc request_before_set = 2"
    by (simp add: request_before_set_def)
  have pc_held: "init_pc request_held = 4" and waiting: "requests request_held 0 = Some Waiting"
    and absent: "requests request_held 1 = None"
    by (simp_all add: request_held_def)
  have dispatched: "requests request_served 0 = Some (Dispatched (Some ''core''))"
    by (simp add: request_served_def)
  have blocked: "gate_step ''core'' (WaitReturn 0) request_before_set = None"
    using before [THEN conjunct2, THEN conjunct2, THEN conjunct1] pc_before by simp
  have after_set:
    "(\<forall>r. requests request_held r = Some Waiting \<longrightarrow>
         gate_run ''core'' [WaitReturn r, Call r] request_held
           = Some (request_held\<lparr>requests := (requests request_held)(r \<mapsto> Dispatched (Some ''core''))\<rparr>))
     \<and> (\<forall>r. requests request_held r = None \<longrightarrow>
         gate_run ''core'' [Arrive r, WaitReturn r, Call r] request_held
           = Some (request_held\<lparr>requests := (requests request_held)(r \<mapsto> Dispatched (Some ''core''))\<rparr>))"
    using held [THEN conjunct2, THEN conjunct2, THEN conjunct2, THEN conjunct1] pc_held
    by (rule mp)
  have run_held: "gate_run ''core'' [WaitReturn 0, Call 0] request_held
       = Some (request_held\<lparr>requests := (requests request_held)(0 \<mapsto> Dispatched (Some ''core''))\<rparr>)"
    using after_set [THEN conjunct1, rule_format, OF waiting] .
  have run_new: "gate_run ''core'' [Arrive 1, WaitReturn 1, Call 1] request_held
       = Some (request_held\<lparr>requests := (requests request_held)(1 \<mapsto> Dispatched (Some ''core''))\<rparr>)"
    using after_set [THEN conjunct2, rule_format, OF absent] .
  have pc_served: "init_pc request_served = 4"
    using served [THEN conjunct2, THEN conjunct1, rule_format, of 0] dispatched by blast
  have m0: "(requests request_held)(0 \<mapsto> Dispatched (Some ''core'')) = [0 \<mapsto> Dispatched (Some ''core'')]"
    and m1: "(requests request_held)(1 \<mapsto> Dispatched (Some ''core''))
               = [0 \<mapsto> Waiting, 1 \<mapsto> Dispatched (Some ''core'')]"
    by (simp_all add: request_held_def)
  show ?thesis
    using arrives_early_run early_request_run early_request_served_run pc_before blocked
      waiting run_held run_new dispatched pc_served
    by (simp only: m0 m1 simp_thms)
qed

section \<open>Properties of the node\<close>

text \<open>
  Claim C6, on the pin store as the specification describes it: a second \<open>CreatePin\<close> with
  the same name and any height returns no error and changes nothing, so the pin stays at
  the height it had after the first call (the first call's height for a new pin, the
  height it already had otherwise).
\<close>

theorem CreatePin_idempotent:
  "CreatePin name h2 (snd (CreatePin name h1 pins)) = (None, snd (CreatePin name h1 pins))
   \<and> fst (CreatePin name h1 pins) = None
   \<and> snd (CreatePin name h1 pins) name = Some (case pins name of None \<Rightarrow> h1 | Some h \<Rightarrow> h)"
  by (simp add: CreatePin_def split: option.splits)

lemma rpcInit_fields [simp]:
  "w_store (rpcInit d config w) = w_store w"
  "w_pins (rpcInit d config w) = w_pins w"
  "w_log (rpcInit d config w) = w_log w"
  "w_rpccore_configured (rpcInit d config w) = w_rpccore_configured w"
  "w_unsafe_routes (rpcInit d config w) = w_unsafe_routes w"
  "w_net (rpcInit d config w) = snd (net_Listen (env_LISTEN d (ApiAddress config)) (w_net w))"
  by (simp_all add: rpcInit_def Let_def split: prod.splits sum.splits)


lemma wallet_setup_fields [simp]:
  "w_store (snd (wallet_setup d config w)) = w_store w"
  "w_net (snd (wallet_setup d config w)) = w_net w"
  "w_rpccore_configured (snd (wallet_setup d config w)) = w_rpccore_configured w"
  "w_unsafe_routes (snd (wallet_setup d config w)) = w_unsafe_routes w"
  by (simp_all add: wallet_setup_def Let_def split: prod.splits option.splits)

lemma NewNode_store:
  "w_store (snd (NewNode d config w)) =
     (case EventSwitch_Start d of
        Some err \<Rightarrow> w_store w
      | None \<Rightarrow> snd (genesis_bootstrap d (w_store w)))"
proof (cases "EventSwitch_Start d")
  case (Some err)
  then show ?thesis by (simp add: NewNode_def)
next
  case None
  obtain r st where g: "genesis_bootstrap d (w_store w) = (r, st)"
    by (cases "genesis_bootstrap d (w_store w)")
  show ?thesis
  proof (cases r)
    case (Some err)
    then show ?thesis using None g by (simp add: NewNode_def)
  next
    case rNone: None
    obtain out w1 where ws: "wallet_setup d config (w\<lparr>w_store := st\<rparr>) = (out, w1)"
      by (cases "wallet_setup d config (w\<lparr>w_store := st\<rparr>)")
    have w1: "w_store w1 = st"
      using wallet_setup_fields(1) [of d config "w\<lparr>w_store := st\<rparr>"] ws by simp
    show ?thesis
      using None g rNone ws w1
      by (cases out; cases "pseudohsm_New d") (simp_all add: NewNode_def Let_def)
  qed
qed

lemma height_ge_1: "1 \<le> (h :: 64 word) \<longleftrightarrow> h \<noteq> 0"
  by (simp add: not_less [symmetric])

text \<open>
  Claim C4. Once the event switch has started, the store \<open>NewNode\<close> leaves is the store
  after \<open>AddBlock\<close> of the genesis block when the height was below one, and the store it
  found otherwise: the block is added if and only if the height is below one. A store of
  height at least one is never touched. And when the chain's \<open>AddBlock\<close>, where it
  succeeds on the store at hand, leaves a height of at least one, a second construction on
  the world left by a first one that returned leaves the store, and so its height, as the
  first one left it.
\<close>

theorem NewNode_genesis_bootstrap:
  "(EventSwitch_Start d = None \<longrightarrow>
      w_store (snd (NewNode d config w)) =
        (if store_Height d (w_store w) < 1 then snd (chain_AddBlock d (w_store w))
         else w_store w))
   \<and> (1 \<le> store_Height d (w_store w) \<longrightarrow> w_store (snd (NewNode d config w)) = w_store w)
   \<and> ((fst (chain_AddBlock d (w_store w)) = None
          \<longrightarrow> 1 \<le> store_Height d (snd (chain_AddBlock d (w_store w))))
        \<and> NewNode d config w = (Return r, w1)
       \<longrightarrow> 1 \<le> store_Height d (w_store w1)
           \<and> w_store (snd (NewNode d config' w1)) = w_store w1
           \<and> store_Height d (w_store (snd (NewNode d config' w1))) = store_Height d (w_store w1))"
proof -
  have a: "w_store (snd (NewNode d config w)) =
        (if store_Height d (w_store w) < 1 then snd (chain_AddBlock d (w_store w))
         else w_store w)" if "EventSwitch_Start d = None"
    using that by (simp add: NewNode_store genesis_bootstrap_def)
  have b: "w_store (snd (NewNode d c v)) = w_store v" if "1 \<le> store_Height d (w_store v)" for c v
    using that by (auto simp: NewNode_store genesis_bootstrap_def height_ge_1 split: option.splits)
  have c: "1 \<le> store_Height d (w_store w1)"
    if ok: "fst (chain_AddBlock d (w_store w)) = None
          \<longrightarrow> 1 \<le> store_Height d (snd (chain_AddBlock d (w_store w)))"
      and ret: "NewNode d config w = (Return r, w1)"
  proof -
    from ret have ev: "EventSwitch_Start d = None"
      by (cases "EventSwitch_Start d") (simp_all add: NewNode_def)
    have st: "w_store w1 = snd (genesis_bootstrap d (w_store w))"
      using NewNode_store [of d config w] ret ev by simp
    from ret ev have g: "fst (genesis_bootstrap d (w_store w)) = None"
      by (cases "genesis_bootstrap d (w_store w)"; cases "fst (genesis_bootstrap d (w_store w))")
         (simp_all add: NewNode_def)
    show ?thesis
      using st g ok by (auto simp: genesis_bootstrap_def height_ge_1 split: if_splits)
  qed
  show ?thesis
    using a b [of w config] b [of w1 config'] c by metis
qed

lemma NewNode_fresh:
  "NewNode example_deps example_config (example_world 0 [])
     = (Return (Some example_node), constructed_world 1)"
  by (simp add: NewNode_def example_deps_def example_config_def example_world_def
        constructed_world_def example_node_def genesis_bootstrap_def wallet_setup_def
        pin_height_def CreatePin_def rpcInit_def net_Listen_def Let_def)

lemma NewNode_at_50:
  "NewNode example_deps example_config (example_world 50 [])
     = (Return (Some example_node), constructed_world 50)"
  by (simp add: NewNode_def example_deps_def example_config_def example_world_def
        constructed_world_def example_node_def genesis_bootstrap_def wallet_setup_def
        pin_height_def CreatePin_def rpcInit_def net_Listen_def Let_def)

text \<open>The theorem on the empty store, where the first construction brings the height to one
  and the second leaves it there, and on a store at height 50, which both constructions
  leave alone.\<close>

theorem NewNode_genesis_bootstrap_witness:
  "w_store (snd (NewNode example_deps example_config (example_world 0 []))) = 1
   \<and> w_store (snd (NewNode example_deps example_config (constructed_world 1))) = 1
   \<and> w_store (snd (NewNode example_deps example_config (example_world 50 []))) = 50
   \<and> w_store (snd (NewNode example_deps example_config (constructed_world 50))) = 50"
  using NewNode_genesis_bootstrap
          [where d = example_deps and w = "example_world 0 []" and config = example_config
             and r = "Some example_node" and ?w1.0 = "constructed_world 1"
             and config' = example_config]
        NewNode_genesis_bootstrap
          [where d = example_deps and w = "example_world 50 []" and config = example_config
             and r = "Some example_node" and ?w1.0 = "constructed_world 50"
             and config' = example_config]
        NewNode_fresh NewNode_at_50
  by (simp add: example_deps_def example_world_def constructed_world_def)






text \<open>
  Claim C7, as the code has it. When the event switch has started, the genesis bootstrap
  has succeeded and the wallet is enabled, a failure of \<open>LoadAll\<close> is logged and \<open>NewNode\<close>
  returns nil: no pin is created, no block processing is started, no listener is bound, and
  the process is not ended by the constructor.
\<close>

theorem NewNode_LoadAll_failure:
  assumes "EventSwitch_Start d = None"
    and "genesis_bootstrap d (w_store w) = (None, st)"
    and "Wallet_Enable config"
    and "pin_LoadAll d (w_pins w) = (Some err, ps)"
  shows "NewNode d config w
           = (Return None, w\<lparr>w_store := st, w_pins := ps, w_log := w_log w @ [err]\<rparr>)
       \<and> \<not> terminates_process (fst (NewNode d config w))"
  using assms by (simp add: NewNode_def wallet_setup_def)

text \<open>The theorem on the empty store with a pin store that fails to load.\<close>

theorem NewNode_LoadAll_failure_witness:
  "NewNode load_fails example_config (example_world 0 [])
     = (Return None, (example_world 1 [])\<lparr>w_log := [New ''pin load failed'']\<rparr>)"
  using NewNode_LoadAll_failure
          [where d = load_fails and w = "example_world 0 []" and st = 1
             and config = example_config and err = "New ''pin load failed''"
             and ps = Map.empty]
  by (simp add: load_fails_def example_deps_def example_config_def example_world_def
        genesis_bootstrap_def)

text \<open>Claim C7 as the specification states it fails there: the call returns, it does not
  end the process.\<close>

theorem NewNode_LoadAll_failure_returns:
  "\<not> terminates_process (fst (NewNode load_fails example_config (example_world 0 [])))"
  by (simp add: NewNode_def wallet_setup_def load_fails_def example_deps_def
        example_config_def example_world_def genesis_bootstrap_def)




text \<open>
  Claim C3, as the code has it. When the switch has started and seeds are configured, an
  error of \<open>DialSeeds\<close> is returned by \<open>OnStart\<close> at once: \<open>startRPC\<close> is not called, so
  \<open>n.rpcListeners\<close> stays as it was and the world is the one left by the creation of the
  switch's listener; nothing is logged.
\<close>

theorem OnStart_seed_dial_failure:
  assumes "sw_Start d = None"
    and "P2P_Seeds (n_config n) \<noteq> ''''"
    and "sw_DialSeeds d (split_on CHR '','' (P2P_Seeds (n_config n))) = Some err"
  shows "fst (fst (OnStart d n w)) = Some err
       \<and> n_rpcListeners (snd (fst (OnStart d n w))) = n_rpcListeners n
       \<and> snd (OnStart d n w) =
           w\<lparr>w_net := snd (NewDefaultListener d
                              (fst (ProtocolAndAddress (P2P_ListenAddress (n_config n))))
                              (snd (ProtocolAndAddress (P2P_ListenAddress (n_config n))))
                              (P2P_SkipUPNP (n_config n)) (w_net w))\<rparr>"
  using assms by (simp add: OnStart_def Let_def split: prod.splits)

lemma ProtocolAndAddress_example:
  "ProtocolAndAddress ''tcp://0.0.0.0:46656'' = (''tcp'', ''0.0.0.0:46656'')"
  by (simp add: ProtocolAndAddress_def)

text \<open>Claim C3 as the specification states it fails there: \<open>OnStart\<close> returns the error of
  the dial, and no RPC listener was started.\<close>

theorem OnStart_returns_dial_error:
  "fst (fst (OnStart dial_fails example_node (constructed_world 1))) = Some (New ''bad seed address'')
   \<and> n_rpcListeners (snd (fst (OnStart dial_fails example_node (constructed_world 1)))) = []
   \<and> net_listening (w_net (snd (OnStart dial_fails example_node (constructed_world 1))))
       = [''0.0.0.0:1999'', ''0.0.0.0:46656'']
   \<and> \<not> w_rpccore_configured (snd (OnStart dial_fails example_node (constructed_world 1)))"
  by (simp add: OnStart_def Let_def dial_fails_def example_deps_def example_node_def
        example_config_def constructed_world_def ProtocolAndAddress_example net_Listen_def)

text \<open>The theorem on the node constructed from the empty store, with a failing dial.\<close>

theorem OnStart_seed_dial_failure_witness:
  "fst (fst (OnStart dial_fails example_node (constructed_world 1)))
     = Some (New ''bad seed address'')
   \<and> snd (OnStart dial_fails example_node (constructed_world 1)) =
       (constructed_world 1)
         \<lparr>w_net := \<lparr>net_in_use = [], net_listening = [''0.0.0.0:1999'', ''0.0.0.0:46656'']\<rparr>\<rparr>"
  using OnStart_seed_dial_failure
          [where d = dial_fails and n = example_node and w = "constructed_world 1"
             and err = "New ''bad seed address''"]
  by (simp add: dial_fails_def example_deps_def example_node_def
        example_config_def constructed_world_def ProtocolAndAddress_example net_Listen_def)

lemma start_http_servers_fail:
  assumes "k < length addrs"
    and "distinct (take k addrs)"
    and "\<forall>a \<in> set (take k addrs). a \<notin> set (net_in_use nw) \<and> a \<notin> set (net_listening nw)"
    and "addrs ! k \<in> set (net_in_use nw) \<union> set (net_listening nw) \<union> set (take k addrs)"
  shows "start_http_servers addrs nw =
     (Inl (New (''listen '' @ addrs ! k @ '': address already in use'')),
      nw\<lparr>net_listening := net_listening nw @ take k addrs\<rparr>)"
  using assms
proof (induction addrs arbitrary: k nw)
  case Nil
  then show ?case by simp
next
  case (Cons a rest)
  show ?case
  proof (cases k)
    case 0
    then show ?thesis
      using Cons.prems by (simp add: StartHTTPServer_def net_Listen_def)
  next
    case (Suc j)
    let ?nw = "nw\<lparr>net_listening := net_listening nw @ [a]\<rparr>"
    have free: "a \<notin> set (net_in_use nw)" "a \<notin> set (net_listening nw)"
      using Cons.prems(3) Suc by simp_all
    have first: "StartHTTPServer a nw = (Inr a, ?nw)"
      using free by (simp add: StartHTTPServer_def net_Listen_def)
    have j: "j < length rest" using Cons.prems(1) Suc by simp
    have d: "distinct (take j rest)" using Cons.prems(2) Suc by simp
    have fr: "\<forall>b \<in> set (take j rest). b \<notin> set (net_in_use ?nw) \<and> b \<notin> set (net_listening ?nw)"
      using Cons.prems(2,3) Suc by auto
    have bad: "rest ! j \<in> set (net_in_use ?nw) \<union> set (net_listening ?nw) \<union> set (take j rest)"
      using Cons.prems(4) Suc by auto
    have "start_http_servers rest ?nw =
       (Inl (New (''listen '' @ rest ! j @ '': address already in use'')),
        ?nw\<lparr>net_listening := net_listening ?nw @ take j rest\<rparr>)"
      by (rule Cons.IH [OF j d fr bad])
    then show ?thesis
      using first Suc by simp
  qed
qed

text \<open>
  Claim C2, as the code has it. Let \<open>k\<close> be the first of the configured HTTP addresses that
  cannot be bound: the addresses before it are free and pairwise different, and address
  \<open>k\<close> is held by another process, by this process, or by an earlier address of the list.
  Then \<open>startRPC\<close> returns the error of that bind and no listeners, and it closes nothing:
  the listeners bound for the addresses before \<open>k\<close> are still open when the error reaches
  the caller.
\<close>

theorem startRPC_bind_failure:
  assumes "addrs = split_on CHR '','' (RPC_ListenAddress (n_config n))"
    and "k < length addrs"
    and "distinct (take k addrs)"
    and "\<forall>a \<in> set (take k addrs).
           a \<notin> set (net_in_use (w_net w)) \<and> a \<notin> set (net_listening (w_net w))"
    and "addrs ! k \<in> set (net_in_use (w_net w)) \<union> set (net_listening (w_net w))
                     \<union> set (take k addrs)"
  shows "fst (startRPC n w) = Inl (New (''listen '' @ addrs ! k @ '': address already in use''))
       \<and> net_listening (w_net (snd (startRPC n w))) = net_listening (w_net w) @ take k addrs
       \<and> net_in_use (w_net (snd (startRPC n w))) = net_in_use (w_net w)"
proof -
  let ?w2 = "if RPC_Unsafe (n_config n)
             then w\<lparr>w_rpccore_configured := True, w_unsafe_routes := True\<rparr>
             else w\<lparr>w_rpccore_configured := True\<rparr>"
  have net: "w_net ?w2 = w_net w" by simp
  have "start_http_servers addrs (w_net w) =
     (Inl (New (''listen '' @ addrs ! k @ '': address already in use'')),
      (w_net w)\<lparr>net_listening := net_listening (w_net w) @ take k addrs\<rparr>)"
    by (rule start_http_servers_fail [OF assms(2-5)])
  then show ?thesis
    using assms(1) by (simp add: startRPC_def Let_def)
qed

text \<open>The theorem on the addresses \<open>:8001,:8002\<close> with \<open>:8002\<close> held by another process.\<close>

theorem startRPC_bind_failure_witness:
  "fst (startRPC example_node (example_world 1 ['':8002'']))
     = Inl (New ''listen :8002: address already in use'')
   \<and> net_listening (w_net (snd (startRPC example_node (example_world 1 ['':8002''])))) = ['':8001'']"
  using startRPC_bind_failure
          [where addrs = "['':8001'', '':8002'']" and n = example_node
             and w = "example_world 1 ['':8002'']" and k = 1]
  by (simp add: example_node_def example_config_def example_world_def)

text \<open>Claim C2 as the specification states it fails there: \<open>startRPC\<close> returns the error and
  \<open>:8001\<close> is still listening; \<open>OnStart\<close> returns the error with \<open>n.rpcListeners\<close> empty, so
  that \<open>OnStop\<close> does not close \<open>:8001\<close> either.\<close>

theorem startRPC_leaves_listener_open:
  "split_on CHR '','' (RPC_ListenAddress (n_config example_node)) = ['':8001'', '':8002'']
   \<and> fst (startRPC example_node (example_world 1 ['':8002'']))
       = Inl (New ''listen :8002: address already in use'')
   \<and> '':8001'' \<in> set (net_listening (w_net (snd (startRPC example_node
                                                    (example_world 1 ['':8002''])))))
   \<and> fst (fst failed_start) = Some (New ''listen :8002: address already in use'')
   \<and> n_rpcListeners (snd (fst failed_start)) = []
   \<and> '':8001'' \<in> set (net_listening (w_net (snd failed_start)))
   \<and> '':8001'' \<in> set (net_listening (w_net (snd (OnStop (snd (fst failed_start))
                                                         (snd failed_start)))))"
  by (simp add: failed_start_def OnStart_def OnStop_def startRPC_def Let_def example_deps_def
        example_node_def example_config_def example_world_def ProtocolAndAddress_example
        net_Listen_def StartHTTPServer_def)

end
